theory Spec2Isabelle
  imports Main "HOL-Library.AList"
begin

section \<open>Python values\<close>

text \<open>
  The transform of \<^verbatim>\<open>rollbar/lib/transforms/shortener.py\<close> walks arbitrary Python
  values. A value is modelled as a tree: the built-in scalars, the exact built-in
  container types that \<^verbatim>\<open>_type_name_mapping\<close> names, a mapping that is not a
  \<^verbatim>\<open>dict\<close>, and an opaque object. Containers hold their entries in iteration order.
  Sharing and cycles between containers are outside the model: every entry of a container
  is a value of its own.

  Text is a list of code points in the range 0..255. A float is carried by the text that
  \<^verbatim>\<open>repr\<close> prints for it (which is also what \<^verbatim>\<open>str\<close> prints); no
  arithmetic is done on floats here.

  A mapping that is not a \<^verbatim>\<open>dict\<close> is read-only, as \<^verbatim>\<open>types.MappingProxyType\<close> is:
  it has the methods of \<^verbatim>\<open>collections.abc.Mapping\<close> and no item assignment. It is an
  object as well, with its own \<^verbatim>\<open>__str__\<close> and \<^verbatim>\<open>__repr__\<close>.

  An opaque object is known by its class name, by what its \<^verbatim>\<open>__str__\<close> and
  \<^verbatim>\<open>__repr__\<close> return (\<open>None\<close> when the method raises) and by its
  \<^verbatim>\<open>id\<close>. Its class name is not one of the names \<^verbatim>\<open>reprlib.Repr\<close> has
  a \<^verbatim>\<open>repr_<name>\<close> method for.
\<close>

datatype error = TypeError | KeyError | AttributeError | ObjectError

datatype pyobj = PyObj (type_name: string) (obj_str: "string option")
  (obj_repr: "string option") (obj_id: nat)

datatype pyval =
    PNone
  | PBool bool
  | PInt int
  | PFloat string
  | PStr string
  | PDict "(pyval \<times> pyval) list"
  | PList "pyval list"
  | PTuple "pyval list"
  | PSet "pyval list"
  | PFrozenset "pyval list"
  | PArray char "pyval list"
  | PDeque "pyval list"
  | PMapping pyobj "(pyval \<times> pyval) list"
  | PObject pyobj

text \<open>The \<^verbatim>\<open>isinstance\<close> tests of the source, one for each type it names.\<close>

fun is_dict :: "pyval \<Rightarrow> bool" where
  "is_dict (PDict _) = True"
| "is_dict _ = False"

fun is_Mapping :: "pyval \<Rightarrow> bool" where
  "is_Mapping (PDict _) = True"
| "is_Mapping (PMapping _ _) = True"
| "is_Mapping _ = False"

fun is_list :: "pyval \<Rightarrow> bool" where
  "is_list (PList _) = True"
| "is_list _ = False"

fun is_tuple :: "pyval \<Rightarrow> bool" where
  "is_tuple (PTuple _) = True"
| "is_tuple _ = False"

fun is_set :: "pyval \<Rightarrow> bool" where
  "is_set (PSet _) = True"
| "is_set _ = False"

fun is_frozenset :: "pyval \<Rightarrow> bool" where
  "is_frozenset (PFrozenset _) = True"
| "is_frozenset _ = False"

fun is_array :: "pyval \<Rightarrow> bool" where
  "is_array (PArray _ _) = True"
| "is_array _ = False"

fun is_deque :: "pyval \<Rightarrow> bool" where
  "is_deque (PDeque _) = True"
| "is_deque _ = False"

text \<open>Modelled from the spec: \<^verbatim>\<open>string_types\<close>, \<^verbatim>\<open>integer_types\<close> and
  \<^verbatim>\<open>number_types\<close> of \<^verbatim>\<open>rollbar.lib\<close>, which is not among the sources. The spec
  names the categories "text" and "integer-like" and speaks of "numeric-like" values: text is
  \<^verbatim>\<open>str\<close>, the integers are \<^verbatim>\<open>int\<close> with its subclass \<^verbatim>\<open>bool\<close>, and the numbers
  are the integers and the floats.\<close>

fun is_string :: "pyval \<Rightarrow> bool" where
  "is_string (PStr _) = True"
| "is_string _ = False"

fun is_integer :: "pyval \<Rightarrow> bool" where
  "is_integer (PInt _) = True"
| "is_integer (PBool _) = True"
| "is_integer _ = False"

fun is_number :: "pyval \<Rightarrow> bool" where
  "is_number (PInt _) = True"
| "is_number (PBool _) = True"
| "is_number (PFloat _) = True"
| "is_number _ = False"

text \<open>\<^verbatim>\<open>len(obj)\<close>: defined for text and for the containers, a \<^verbatim>\<open>TypeError\<close>
  for every other value.\<close>

fun py_len :: "pyval \<Rightarrow> error + nat" where
  "py_len (PStr s) = Inr (length s)"
| "py_len (PDict items) = Inr (length items)"
| "py_len (PList xs) = Inr (length xs)"
| "py_len (PTuple xs) = Inr (length xs)"
| "py_len (PSet xs) = Inr (length xs)"
| "py_len (PFrozenset xs) = Inr (length xs)"
| "py_len (PArray tc xs) = Inr (length xs)"
| "py_len (PDeque xs) = Inr (length xs)"
| "py_len (PMapping ob items) = Inr (length items)"
| "py_len _ = Inl TypeError"

section \<open>Text forms: \<^verbatim>\<open>str\<close> and the built-in \<^verbatim>\<open>repr\<close>\<close>

definition digit_char :: "nat \<Rightarrow> char" where
  "digit_char d = ''0123456789abcdef'' ! (d mod 16)"

fun nat_digits :: "nat \<Rightarrow> nat \<Rightarrow> string" where
  "nat_digits b n =
     (if b < 2 \<or> n < b then [digit_char n]
      else nat_digits b (n div b) @ [digit_char (n mod b)])"

declare nat_digits.simps [simp del]

definition int_str :: "int \<Rightarrow> string" where
  "int_str i = (if i < 0 then CHR ''-'' # nat_digits 10 (nat (- i)) else nat_digits 10 (nat i))"

definition bool_str :: "bool \<Rightarrow> string" where
  "bool_str b = (if b then ''True'' else ''False'')"

definition squote :: char where "squote = CHR 0x27"
definition dquote :: char where "dquote = CHR 0x22"
definition bslash :: char where "bslash = CHR 0x5C"

definition hex2 :: "nat \<Rightarrow> string" where
  "hex2 n = [bslash, CHR ''x'', digit_char (n div 16), digit_char (n mod 16)]"

text \<open>\<^verbatim>\<open>str.isprintable\<close> on a code point between 128 and 255: the C1 controls, the
  no-break space and the soft hyphen are not printable.\<close>

definition printable_high :: "nat \<Rightarrow> bool" where
  "printable_high n = (161 \<le> n \<and> n \<noteq> 173)"

definition escape_char :: "char \<Rightarrow> char \<Rightarrow> string" where
  "escape_char q c =
     (let n = (of_char c :: nat) in
      if c = q \<or> c = bslash then [bslash, c]
      else if n = 9 then [bslash, CHR ''t'']
      else if n = 10 then [bslash, CHR ''n'']
      else if n = 13 then [bslash, CHR ''r'']
      else if n < 32 \<or> n = 127 then hex2 n
      else if n < 127 then [c]
      else if printable_high n then [c]
      else hex2 n)"

text \<open>\<^verbatim>\<open>repr\<close> of a \<^verbatim>\<open>str\<close>: single quotes, unless the text holds a single quote
  and no double quote.\<close>

definition str_repr :: "string \<Rightarrow> string" where
  "str_repr s =
     (let q = (if squote \<in> set s \<and> dquote \<notin> set s then dquote else squote)
      in q # concat (map (escape_char q) s) @ [q])"

text \<open>\<^verbatim>\<open>', '.join(pieces)\<close>.\<close>

fun join :: "string list \<Rightarrow> string" where
  "join [] = []"
| "join [p] = p"
| "join (p # ps) = p @ '', '' @ join ps"

text \<open>Running a list of computations in order; the first exception ends the run.\<close>

fun sequence :: "(error + 'a) list \<Rightarrow> error + 'a list" where
  "sequence [] = Inr []"
| "sequence (Inl e # _) = Inl e"
| "sequence (Inr x # ms) = (case sequence ms of Inl e \<Rightarrow> Inl e | Inr xs \<Rightarrow> Inr (x # xs))"

definition instance_repr :: "pyobj \<Rightarrow> error + string" where
  "instance_repr ob = (case obj_repr ob of None \<Rightarrow> Inl ObjectError | Some s \<Rightarrow> Inr s)"

definition wrap :: "string \<Rightarrow> string \<Rightarrow> error + string list \<Rightarrow> error + string" where
  "wrap left right ps = (case ps of Inl e \<Rightarrow> Inl e | Inr pieces \<Rightarrow> Inr (left @ join pieces @ right))"

fun pair_repr :: "error + string \<Rightarrow> error + string \<Rightarrow> error + string" where
  "pair_repr (Inl e) _ = Inl e"
| "pair_repr (Inr k) (Inl e) = Inl e"
| "pair_repr (Inr k) (Inr v) = Inr (k @ '': '' @ v)"

text \<open>The built-in \<^verbatim>\<open>repr\<close>, which prints a container whole. An array is numeric
  (type code other than \<^verbatim>\<open>'u'\<close>); a deque has no \<^verbatim>\<open>maxlen\<close>.\<close>

fun builtin_repr :: "pyval \<Rightarrow> error + string" where
  "builtin_repr PNone = Inr ''None''"
| "builtin_repr (PBool b) = Inr (bool_str b)"
| "builtin_repr (PInt i) = Inr (int_str i)"
| "builtin_repr (PFloat s) = Inr s"
| "builtin_repr (PStr s) = Inr (str_repr s)"
| "builtin_repr (PDict items) =
     wrap ''{'' ''}'' (sequence (map (\<lambda>(k, v). pair_repr (builtin_repr k) (builtin_repr v)) items))"
| "builtin_repr (PList xs) = wrap ''['' '']'' (sequence (map builtin_repr xs))"
| "builtin_repr (PTuple xs) =
     wrap ''('' (if length xs = 1 then '',)'' else '')'') (sequence (map builtin_repr xs))"
| "builtin_repr (PSet xs) =
     (if xs = [] then Inr ''set()'' else wrap ''{'' ''}'' (sequence (map builtin_repr xs)))"
| "builtin_repr (PFrozenset xs) =
     (if xs = [] then Inr ''frozenset()''
      else wrap ''frozenset({'' ''})'' (sequence (map builtin_repr xs)))"
| "builtin_repr (PArray tc xs) =
     (if xs = [] then Inr (''array('' @ [squote, tc, squote] @ '')'')
      else wrap (''array('' @ [squote, tc, squote] @ '', ['') ''])''
             (sequence (map builtin_repr xs)))"
| "builtin_repr (PDeque xs) = wrap ''deque(['' ''])'' (sequence (map builtin_repr xs))"
| "builtin_repr (PMapping ob items) = instance_repr ob"
| "builtin_repr (PObject ob) = instance_repr ob"

text \<open>\<^verbatim>\<open>str(obj)\<close>: the text itself for text, \<^verbatim>\<open>__str__\<close> for an object, and the
  built-in \<^verbatim>\<open>repr\<close> for everything else.\<close>

fun py_str :: "pyval \<Rightarrow> error + string" where
  "py_str (PStr s) = Inr s"
| "py_str (PMapping ob items) = (case obj_str ob of None \<Rightarrow> Inl ObjectError | Some s \<Rightarrow> Inr s)"
| "py_str (PObject ob) = (case obj_str ob of None \<Rightarrow> Inl ObjectError | Some s \<Rightarrow> Inr s)"
| "py_str v = builtin_repr v"

section \<open>\<^verbatim>\<open>reprlib.Repr\<close>\<close>

text \<open>
  The transform keeps its limits in a \<^verbatim>\<open>reprlib.Repr\<close> object and asks it for every
  summary. The limits are element and character counts, natural numbers. \<open>extra_attrs\<close>
  holds the attributes that \<^verbatim>\<open>setattr\<close> added under a name \<^verbatim>\<open>Repr\<close> does not
  know; nothing reads them. The fill value is the default \<^verbatim>\<open>'...'\<close> and there is no
  indentation.
\<close>

record Repr =
  maxlevel :: nat
  maxtuple :: nat
  maxlist :: nat
  maxarray :: nat
  maxdict :: nat
  maxset :: nat
  maxfrozenset :: nat
  maxdeque :: nat
  maxstring :: nat
  maxlong :: nat
  maxother :: nat
  extra_attrs :: "(string \<times> nat) list"

text \<open>\<^verbatim>\<open>reprlib.Repr()\<close>: the defaults of the standard library.\<close>

definition Repr_init :: Repr where
  "Repr_init = \<lparr> maxlevel = 6, maxtuple = 6, maxlist = 6, maxarray = 5, maxdict = 4,
     maxset = 6, maxfrozenset = 6, maxdeque = 6, maxstring = 30, maxlong = 40,
     maxother = 30, extra_attrs = [] \<rparr>"

definition fillvalue :: string where
  "fillvalue = ''...''"

text \<open>
  Two things the transform depends on are not in this file of the repository.
  \<^item> \<open>possibly_sorted\<close> is \<^verbatim>\<open>reprlib._possibly_sorted\<close>: the entries of a set, or the keys
    of a dict, in the order \<^verbatim>\<open>sorted\<close> gives them, or in iteration order when they
    cannot be compared. The order of Python values is not modelled.
  \<^item> \<open>mapping_is_sequence\<close> says whether \<^verbatim>\<open>rollbar.lib.sequence_types\<close> lists
    \<^verbatim>\<open>collections.abc.Mapping\<close>, so that a mapping which is not a \<^verbatim>\<open>dict\<close>
    passes \<^verbatim>\<open>isinstance(v, sequence_types)\<close>. The other members of
    \<^verbatim>\<open>sequence_types\<close> are list, tuple, set, frozenset, array and deque.
\<close>

record pyenv =
  possibly_sorted :: "pyval list \<Rightarrow> pyval list"
  mapping_is_sequence :: bool

text \<open>The slice \<^verbatim>\<open>s[a:]\<close>: a negative start counts from the end and stops at the
  front.\<close>

definition slice_from :: "int \<Rightarrow> 'a list \<Rightarrow> 'a list" where
  "slice_from a xs =
     (if a < 0 then drop (nat (max 0 (int (length xs) + a))) xs else drop (nat a) xs)"

definition cut_i :: "nat \<Rightarrow> int" where
  "cut_i m = max 0 ((int m - 3) div 2)"

definition cut_j :: "nat \<Rightarrow> int" where
  "cut_j m = max 0 (int m - 3 - cut_i m)"

text \<open>The cut that \<^verbatim>\<open>repr_int\<close> and \<^verbatim>\<open>repr_instance\<close> both make:
  \<^verbatim>\<open>s[:i] + fillvalue + s[len(s)-j:]\<close> when \<^verbatim>\<open>len(s)\<close> is over the limit.\<close>

definition elide :: "nat \<Rightarrow> string \<Rightarrow> string" where
  "elide m s =
     (if length s > m
      then take (nat (cut_i m)) s @ fillvalue @ slice_from (int (length s) - cut_j m) s
      else s)"

definition repr_str :: "Repr \<Rightarrow> string \<Rightarrow> string" where
  "repr_str r x =
     (let s = str_repr (take (maxstring r) x) in
      if length s > maxstring r
      then (let i = cut_i (maxstring r); j = cut_j (maxstring r);
                s' = str_repr (take (nat i) x @ slice_from (int (length x) - j) x)
            in take (nat i) s' @ fillvalue @ slice_from (int (length s') - j) s')
      else s)"

definition repr_int :: "Repr \<Rightarrow> int \<Rightarrow> string" where
  "repr_int r x = elide (maxlong r) (int_str x)"

definition descriptor :: "pyobj \<Rightarrow> string" where
  "descriptor ob = ''<'' @ type_name ob @ '' instance at 0x'' @ nat_digits 16 (obj_id ob) @ ''>''"

text \<open>\<^verbatim>\<open>repr_instance\<close>: the built-in \<^verbatim>\<open>repr\<close>, cut to \<^verbatim>\<open>maxother\<close>; when it
  raises, the descriptor, uncut. \<^verbatim>\<open>repr1\<close> sends here every value whose type has no
  \<^verbatim>\<open>repr_<name>\<close> method: \<^verbatim>\<open>None\<close>, booleans, floats and objects. Of these, only
  the \<^verbatim>\<open>repr\<close> of an object can raise.\<close>

definition repr_instance :: "Repr \<Rightarrow> pyval \<Rightarrow> string" where
  "repr_instance r x =
     (case builtin_repr x of
        Inr s \<Rightarrow> elide (maxother r) s
      | Inl e \<Rightarrow>
          (case x of
             PObject ob \<Rightarrow> descriptor ob
           | PMapping ob items \<Rightarrow> descriptor ob
           | _ \<Rightarrow> []))"

definition repr_iterable ::
  "(pyval \<Rightarrow> string) \<Rightarrow> pyval list \<Rightarrow> nat \<Rightarrow> string \<Rightarrow> string \<Rightarrow> nat \<Rightarrow> string \<Rightarrow> string" where
  "repr_iterable rec x level left right maxiter trail =
     (let n = length x in
      if level \<le> 0 \<and> n \<noteq> 0 then left @ fillvalue @ right
      else
        (let pieces = map rec (take maxiter x);
             pieces = (if n > maxiter then pieces @ [fillvalue] else pieces);
             s = join pieces;
             right = (if n = 1 \<and> trail \<noteq> [] then trail @ right else right)
         in left @ s @ right))"

text \<open>\<^verbatim>\<open>repr_dict\<close>. A key that \<open>possibly_sorted\<close> returns is a key of the dict, so
  \<^verbatim>\<open>x[key]\<close> finds its value.\<close>

definition repr_dict ::
  "pyenv \<Rightarrow> Repr \<Rightarrow> (pyval \<Rightarrow> string) \<Rightarrow> (pyval \<times> pyval) list \<Rightarrow> nat \<Rightarrow> string" where
  "repr_dict env r rec x level =
     (let n = length x in
      if n = 0 then ''{}''
      else if level \<le> 0 then ''{'' @ fillvalue @ ''}''
      else
        (let pieces = concat (map (\<lambda>key. case map_of x key of
                                   None \<Rightarrow> []
                                 | Some v \<Rightarrow> [rec key @ '': '' @ rec v])
                           (take (maxdict r) (possibly_sorted env (map fst x))));
             pieces = (if n > maxdict r then pieces @ [fillvalue] else pieces)
         in ''{'' @ join pieces @ ''}''))"

text \<open>The dispatch of \<^verbatim>\<open>repr1\<close> on the type's name; \<open>rec\<close> is \<^verbatim>\<open>repr1\<close> at the
  next level.\<close>

definition repr_dispatch :: "pyenv \<Rightarrow> Repr \<Rightarrow> (pyval \<Rightarrow> string) \<Rightarrow> nat \<Rightarrow> pyval \<Rightarrow> string" where
  "repr_dispatch env r rec level x =
     (case x of
        PStr s \<Rightarrow> repr_str r s
      | PInt i \<Rightarrow> repr_int r i
      | PTuple xs \<Rightarrow> repr_iterable rec xs level ''('' '')'' (maxtuple r) '',''
      | PList xs \<Rightarrow> repr_iterable rec xs level ''['' '']'' (maxlist r) []
      | PArray tc xs \<Rightarrow>
          (if xs = [] then ''array('' @ [squote, tc, squote] @ '')''
           else repr_iterable rec xs level (''array('' @ [squote, tc, squote] @ '', ['') ''])''
                  (maxarray r) [])
      | PSet xs \<Rightarrow>
          (if xs = [] then ''set()''
           else repr_iterable rec (possibly_sorted env xs) level ''{'' ''}'' (maxset r) [])
      | PFrozenset xs \<Rightarrow>
          (if xs = [] then ''frozenset()''
           else repr_iterable rec (possibly_sorted env xs) level ''frozenset({'' ''})''
                  (maxfrozenset r) [])
      | PDeque xs \<Rightarrow> repr_iterable rec xs level ''deque(['' ''])'' (maxdeque r) []
      | PDict items \<Rightarrow> repr_dict env r rec items level
      | _ \<Rightarrow> repr_instance r x)"

text \<open>\<^verbatim>\<open>repr1(x, level)\<close>. The elements are printed at \<^verbatim>\<open>level - 1\<close>; at level 0 no
  element is printed, a container that has entries is the fill value in its brackets.\<close>

fun Repr_repr1 :: "pyenv \<Rightarrow> Repr \<Rightarrow> nat \<Rightarrow> pyval \<Rightarrow> string" where
  "Repr_repr1 env r 0 x = repr_dispatch env r (\<lambda>elem. []) 0 x"
| "Repr_repr1 env r (Suc level) x = repr_dispatch env r (Repr_repr1 env r level) (Suc level) x"

definition Repr_repr :: "pyenv \<Rightarrow> Repr \<Rightarrow> pyval \<Rightarrow> string" where
  "Repr_repr env r x = Repr_repr1 env r (maxlevel r) x"

section \<open>The transform\<close>

text \<open>
  The key a value is processed under, and the entries of the eligibility set
  \<^verbatim>\<open>self.keys\<close>. \<^verbatim>\<open>not key\<close> is true of \<^verbatim>\<open>None\<close>, of the empty text, of
  zero and of the empty tuple.
\<close>

datatype pykey = KNone | KStr string | KInt int | KTuple "pykey list"

fun truthy :: "pykey \<Rightarrow> bool" where
  "truthy KNone = False"
| "truthy (KStr s) = (s \<noteq> [])"
| "truthy (KInt i) = (i \<noteq> 0)"
| "truthy (KTuple ks) = (ks \<noteq> [])"

record ShortenerTransform =
  safe_repr :: bool
  keys :: "pykey list option"
  repr_obj :: Repr

text \<open>
  \<^verbatim>\<open>setattr(self._repr, name, size)\<close>: an attribute \<^verbatim>\<open>Repr\<close> has is replaced, any
  other name becomes a new attribute of the object. A size is a count. (An override of the
  fill value, of the indentation or of a method of \<^verbatim>\<open>Repr\<close> is outside the model.)
\<close>

definition setattr :: "Repr \<Rightarrow> string \<Rightarrow> nat \<Rightarrow> Repr" where
  "setattr r name sz =
     (if name = ''maxlevel'' then r\<lparr>maxlevel := sz\<rparr>
      else if name = ''maxtuple'' then r\<lparr>maxtuple := sz\<rparr>
      else if name = ''maxlist'' then r\<lparr>maxlist := sz\<rparr>
      else if name = ''maxarray'' then r\<lparr>maxarray := sz\<rparr>
      else if name = ''maxdict'' then r\<lparr>maxdict := sz\<rparr>
      else if name = ''maxset'' then r\<lparr>maxset := sz\<rparr>
      else if name = ''maxfrozenset'' then r\<lparr>maxfrozenset := sz\<rparr>
      else if name = ''maxdeque'' then r\<lparr>maxdeque := sz\<rparr>
      else if name = ''maxstring'' then r\<lparr>maxstring := sz\<rparr>
      else if name = ''maxlong'' then r\<lparr>maxlong := sz\<rparr>
      else if name = ''maxother'' then r\<lparr>maxother := sz\<rparr>
      else r\<lparr>extra_attrs := AList.update name sz (extra_attrs r)\<rparr>)"

text \<open>\<^verbatim>\<open>__init__(self, safe_repr=True, keys=None, **sizes)\<close>. No statement of it raises:
  the result is always a transform.\<close>

definition init :: "bool \<Rightarrow> pykey list option \<Rightarrow> (string \<times> nat) list \<Rightarrow> error + ShortenerTransform" where
  "init sr ks sizes =
     Inr \<lparr> safe_repr = sr, keys = ks,
           repr_obj = fold (\<lambda>(name, sz) r. setattr r name sz) sizes Repr_init \<rparr>"

text \<open>\<^verbatim>\<open>_type_name_mapping\<close>, in the order the source writes it: a category name and its
  \<^verbatim>\<open>isinstance\<close> test (\<^verbatim>\<open>None\<close> for \<^verbatim>\<open>'other'\<close>).\<close>

definition type_name_mapping :: "(string \<times> (pyval \<Rightarrow> bool) option) list" where
  "type_name_mapping =
     [(''string'', Some is_string), (''long'', Some is_integer), (''mapping'', Some is_Mapping),
      (''list'', Some is_list), (''tuple'', Some is_tuple), (''set'', Some is_set),
      (''frozenset'', Some is_frozenset), (''array'', Some is_array),
      (''deque'', Some is_deque), (''other'', None)]"

text \<open>The category names: an override \<^verbatim>\<open>max<name>\<close> of one of them is a limit of the
  transform.\<close>

definition known_category :: "string \<Rightarrow> bool" where
  "known_category attr =
     (attr \<in> set (map (\<lambda>(name, ty). ''max'' @ (if name = ''mapping'' then ''dict'' else name))
                     type_name_mapping))"

text \<open>\<^verbatim>\<open>getattr(self._repr, 'max%s' % name)\<close> for the names the table gives.\<close>

definition getattr_max :: "Repr \<Rightarrow> string \<Rightarrow> nat" where
  "getattr_max r name =
     (if name = ''string'' then maxstring r
      else if name = ''long'' then maxlong r
      else if name = ''dict'' then maxdict r
      else if name = ''list'' then maxlist r
      else if name = ''tuple'' then maxtuple r
      else if name = ''set'' then maxset r
      else if name = ''frozenset'' then maxfrozenset r
      else if name = ''array'' then maxarray r
      else if name = ''deque'' then maxdeque r
      else maxother r)"

fun max_size_loop :: "Repr \<Rightarrow> pyval \<Rightarrow> (string \<times> (pyval \<Rightarrow> bool) option) list \<Rightarrow> nat" where
  "max_size_loop r obj [] = maxother r"
| "max_size_loop r obj ((name, ty) # rest) =
     (let name = (if name = ''mapping'' then ''dict'' else name) in
      case ty of
        None \<Rightarrow> max_size_loop r obj rest
      | Some tst \<Rightarrow> if tst obj then getattr_max r name else max_size_loop r obj rest)"

definition get_max_size :: "ShortenerTransform \<Rightarrow> pyval \<Rightarrow> nat" where
  "get_max_size t obj = max_size_loop (repr_obj t) obj type_name_mapping"

subsection \<open>The four strategies\<close>

definition shorten_sequence :: "pyenv \<Rightarrow> ShortenerTransform \<Rightarrow> pyval \<Rightarrow> nat \<Rightarrow> error + pyval" where
  "shorten_sequence env t obj max_keys =
     (case py_len obj of
        Inl e \<Rightarrow> Inl e
      | Inr len \<Rightarrow>
          if len \<le> max_keys then Inr obj
          else Inr (PStr (Repr_repr env (repr_obj t) obj)))"

text \<open>\<^verbatim>\<open>obj.keys()\<close> and \<^verbatim>\<open>obj[k]\<close> on a mapping.\<close>

fun py_keys :: "pyval \<Rightarrow> error + pyval list" where
  "py_keys (PDict items) = Inr (map fst items)"
| "py_keys (PMapping ob items) = Inr (map fst items)"
| "py_keys _ = Inl AttributeError"

fun getitem :: "pyval \<Rightarrow> pyval \<Rightarrow> error + pyval" where
  "getitem (PDict items) k = (case map_of items k of None \<Rightarrow> Inl KeyError | Some v \<Rightarrow> Inr v)"
| "getitem (PMapping ob items) k = (case map_of items k of None \<Rightarrow> Inl KeyError | Some v \<Rightarrow> Inr v)"
| "getitem _ k = Inl TypeError"

text \<open>The comprehension \<^verbatim>\<open>{k: obj[k] for k in ks}\<close>: a new dict, filled key by key.\<close>

fun dict_comp :: "pyval \<Rightarrow> pyval list \<Rightarrow> (pyval \<times> pyval) list \<Rightarrow> error + pyval" where
  "dict_comp obj [] acc = Inr (PDict acc)"
| "dict_comp obj (k # ks) acc =
     (case getitem obj k of
        Inl e \<Rightarrow> Inl e
      | Inr v \<Rightarrow> dict_comp obj ks (AList.update k v acc))"

definition shorten_mapping :: "ShortenerTransform \<Rightarrow> pyval \<Rightarrow> nat \<Rightarrow> error + pyval" where
  "shorten_mapping t obj max_keys =
     (case py_len obj of
        Inl e \<Rightarrow> Inl e
      | Inr len \<Rightarrow>
          if len \<le> max_keys then Inr obj
          else (case py_keys obj of
                  Inl e \<Rightarrow> Inl e
                | Inr ks \<Rightarrow> dict_comp obj (take max_keys ks) []))"

definition shorten_basic :: "pyenv \<Rightarrow> ShortenerTransform \<Rightarrow> pyval \<Rightarrow> nat \<Rightarrow> error + pyval" where
  "shorten_basic env t obj max_len =
     (case py_str obj of
        Inl e \<Rightarrow> Inl e
      | Inr val \<Rightarrow>
          if length val \<le> max_len then Inr obj
          else Inr (PStr (Repr_repr env (repr_obj t) obj)))"

definition shorten_other :: "pyenv \<Rightarrow> ShortenerTransform \<Rightarrow> pyval \<Rightarrow> error + pyval" where
  "shorten_other env t obj =
     (if obj = PNone then Inr PNone
      else if safe_repr t then
        (case py_str obj of
           Inl e \<Rightarrow> Inl e
         | Inr s \<Rightarrow> Inr (PStr (Repr_repr env (repr_obj t) (PStr s))))
      else Inr (PStr (Repr_repr env (repr_obj t) obj)))"

subsection \<open>The traversal\<close>

text \<open>Modelled from the spec: \<^verbatim>\<open>sequence_types\<close> of \<^verbatim>\<open>rollbar.lib\<close>, which is not
  among the sources. The spec's ordered containers are the categories list, tuple, set,
  frozenset, array and deque; whether a mapping counts is \<open>mapping_is_sequence\<close>. The source
  tests \<^verbatim>\<open>isinstance(v, dict)\<close> first wherever it tests
  \<^verbatim>\<open>isinstance(v, sequence_types)\<close>, so the answer for a dict is never used.\<close>

fun is_sequence :: "pyenv \<Rightarrow> pyval \<Rightarrow> bool" where
  "is_sequence env (PList _) = True"
| "is_sequence env (PTuple _) = True"
| "is_sequence env (PSet _) = True"
| "is_sequence env (PFrozenset _) = True"
| "is_sequence env (PArray _ _) = True"
| "is_sequence env (PDeque _) = True"
| "is_sequence env (PDict _) = mapping_is_sequence env"
| "is_sequence env (PMapping _ _) = mapping_is_sequence env"
| "is_sequence env _ = False"

text \<open>
  What \<^verbatim>\<open>d[i] = v\<close> does on each kind of sequence. A list and a deque take any value.
  An array takes a value of its type code: a float under \<^verbatim>\<open>'f'\<close> and \<^verbatim>\<open>'d'\<close>, an
  integer under the other codes (the transform only ever stores the element it read or a
  summary text, so no conversion between numbers arises). A tuple has no item assignment, nor
  has a mapping that is only a \<^verbatim>\<open>collections.abc.Mapping\<close>: both raise
  \<^verbatim>\<open>TypeError\<close>.
\<close>

definition array_accepts :: "char \<Rightarrow> pyval \<Rightarrow> bool" where
  "array_accepts tc v =
     (case v of
        PInt i \<Rightarrow> tc \<noteq> CHR ''f'' \<and> tc \<noteq> CHR ''d''
      | PFloat s \<Rightarrow> tc = CHR ''f'' \<or> tc = CHR ''d''
      | _ \<Rightarrow> False)"

text \<open>A key that equals the integer 0, for \<^verbatim>\<open>d[0]\<close> on a mapping.\<close>

definition key_is_zero :: "pyval \<Rightarrow> bool" where
  "key_is_zero k = (k = PInt 0 \<or> k = PBool False \<or> k = PFloat ''0.0'' \<or> k = PFloat ''-0.0'')"

text \<open>The nesting depth of a value, by which the traversal ends.\<close>

definition list_max :: "nat list \<Rightarrow> nat" where
  "list_max ns = foldr max ns 0"

fun height :: "pyval \<Rightarrow> nat" where
  "height (PDict items) = Suc (list_max (map (\<lambda>(k, v). height v) items))"
| "height (PList xs) = Suc (list_max (map height xs))"
| "height (PTuple xs) = Suc (list_max (map height xs))"
| "height (PSet xs) = Suc (list_max (map height xs))"
| "height (PFrozenset xs) = Suc (list_max (map height xs))"
| "height (PArray tc xs) = Suc (list_max (map height xs))"
| "height (PDeque xs) = Suc (list_max (map height xs))"
| "height (PMapping ob items) = Suc (list_max (map (\<lambda>(k, v). height v) items))"
| "height _ = 0"

text \<open>Facts about the depth, for the termination of the traversal.\<close>

lemma list_max_Cons: "list_max (n # ns) = max n (list_max ns)"
  by (simp add: list_max_def)

lemma list_max_Nil: "list_max [] = 0"
  by (simp add: list_max_def)

lemma list_max_ge: "n \<in> set ns \<Longrightarrow> n \<le> list_max ns"
  by (induction ns) (auto simp: list_max_Cons list_max_Nil)

lemma list_max_le: "(\<And>n. n \<in> set ns \<Longrightarrow> n \<le> m) \<Longrightarrow> list_max ns \<le> m"
  by (induction ns) (auto simp: list_max_Cons list_max_Nil)

text \<open>The values of a mapping.\<close>

fun py_values :: "pyval \<Rightarrow> pyval list" where
  "py_values (PDict items) = map snd items"
| "py_values (PMapping ob items) = map snd items"
| "py_values _ = []"

lemma getitem_values: "getitem obj k = Inr v \<Longrightarrow> v \<in> set (py_values obj)"
  by (cases obj) (auto split: option.splits dest: map_of_SomeD intro: rev_image_eqI)

lemma update_values: "(k', v') \<in> set (AList.update k v acc) \<Longrightarrow> v' = v \<or> (k', v') \<in> set acc"
  by (induction acc) (auto split: if_splits)

lemma dict_comp_values:
  "dict_comp obj ks acc = Inr b \<Longrightarrow>
     \<exists>acc'. b = PDict acc' \<and> (\<forall>v \<in> snd ` set acc'. v \<in> snd ` set acc \<or> v \<in> set (py_values obj))"
proof (induction ks arbitrary: acc)
  case Nil
  then show ?case by auto
next
  case (Cons k ks)
  then obtain v where g: "getitem obj k = Inr v"
    and rest: "dict_comp obj ks (AList.update k v acc) = Inr b"
    by (auto split: sum.splits)
  from Cons.IH [OF rest] obtain acc' where b: "b = PDict acc'"
    and sub: "\<forall>w \<in> snd ` set acc'. w \<in> snd ` set (AList.update k v acc) \<or> w \<in> set (py_values obj)"
    by blast
  have "\<forall>w \<in> snd ` set acc'. w \<in> snd ` set acc \<or> w \<in> set (py_values obj)"
  proof
    fix w assume "w \<in> snd ` set acc'"
    with sub have "w \<in> snd ` set (AList.update k v acc) \<or> w \<in> set (py_values obj)" by blast
    then show "w \<in> snd ` set acc \<or> w \<in> set (py_values obj)"
    proof
      assume "w \<in> snd ` set (AList.update k v acc)"
      then obtain k' where "(k', w) \<in> set (AList.update k v acc)" by auto
      from update_values [OF this] show ?thesis
        using getitem_values [OF g] by (auto intro: rev_image_eqI)
    qed simp
  qed
  with b show ?case by blast
qed

lemma height_values: "v \<in> set (py_values obj) \<Longrightarrow> height v < height obj"
  by (cases obj) (auto simp: less_Suc_eq_le intro!: list_max_ge [THEN order_trans [rotated]] | force)+

lemma height_Mapping: "is_Mapping obj \<Longrightarrow> 0 < height obj"
  by (cases obj) auto

lemma height_dict_comp:
  assumes "is_Mapping obj" and "dict_comp obj ks [] = Inr b"
  shows "height b \<le> height obj"
proof -
  from dict_comp_values [OF assms(2)] obtain acc' where b: "b = PDict acc'"
    and sub: "\<forall>w \<in> snd ` set acc'. w \<in> set (py_values obj)"
    by auto
  have "list_max (map (\<lambda>(k, w). height w) acc') \<le> height obj - 1"
  proof (rule list_max_le)
    fix n assume "n \<in> set (map (\<lambda>(k, w). height w) acc')"
    then obtain k w where "(k, w) \<in> set acc'" and n: "n = height w" by auto
    then have "w \<in> set (py_values obj)" using sub by force
    from height_values [OF this] show "n \<le> height obj - 1" using n by simp
  qed
  then show ?thesis using b height_Mapping [OF assms(1)] by simp
qed

lemma py_keys_Mapping: "py_keys obj = Inr ks \<Longrightarrow> is_Mapping obj"
  by (cases obj) auto

lemma height_shorten_mapping: "shorten_mapping t v n = Inr b \<Longrightarrow> height b \<le> height v"
  by (auto simp: shorten_mapping_def split: sum.splits if_splits
      dest: py_keys_Mapping intro: height_dict_comp)

lemma height_shorten_sequence: "shorten_sequence env t v n = Inr b \<Longrightarrow> height b \<le> height v"
  by (auto simp: shorten_sequence_def split: sum.splits if_splits)


text \<open>The order in which the five mutually recursive functions call each other: a call goes
  to a value of smaller depth, or to a function further down in the source at the same depth,
  or to a shorter rest of the same list.\<close>

fun call_rank ::
  "(pyenv \<times> ShortenerTransform \<times> pyval + pyenv \<times> ShortenerTransform \<times> pyval) +
   (pyenv \<times> ShortenerTransform \<times> (pyval \<Rightarrow> bool) \<times> pyval +
    (pyenv \<times> ShortenerTransform \<times> (pyval \<times> pyval) list +
     pyenv \<times> ShortenerTransform \<times> (pyval \<Rightarrow> bool) \<times> pyval list))
   \<Rightarrow> nat \<times> nat \<times> nat" where
  "call_rank (Inl (Inl (env, t, v))) = (height v, 3, 0)"
| "call_rank (Inl (Inr (env, t, d))) = (height d, 2, 0)"
| "call_rank (Inr (Inl (env, t, accepts, v))) = (height v, 4, 0)"
| "call_rank (Inr (Inr (Inl (env, t, items)))) =
     (list_max (map (\<lambda>(k, v). height v) items), 5, length items)"
| "call_rank (Inr (Inr (Inr (env, t, accepts, xs)))) = (list_max (map height xs), 5, length xs)"


text \<open>
  \<^verbatim>\<open>_shorten\<close> and \<^verbatim>\<open>traverse_obj\<close>. The source updates a container in place,
  entry by entry, and returns it; here the updated container is the result. \<open>traverse_entry\<close>
  is the body of the two loops of \<^verbatim>\<open>traverse_obj\<close> for one entry \<open>v\<close>: the value to
  store is computed, stored (\<open>accepts\<close> tells whether the container takes it), and, in the
  first two branches, traversed in place after it was stored. \<open>traverse_items\<close> is the loop
  over \<^verbatim>\<open>d.items()\<close>, \<open>traverse_elems\<close> the loop over \<^verbatim>\<open>range(len(d))\<close>.

  A set has no \<^verbatim>\<open>d[i]\<close>: the first round of the loop raises. On a mapping that is not a
  dict, \<^verbatim>\<open>d[0]\<close> looks the key 0 up, and the assignment that follows raises.
\<close>

function (sequential) shorten :: "pyenv \<Rightarrow> ShortenerTransform \<Rightarrow> pyval \<Rightarrow> error + pyval"
  and traverse_obj :: "pyenv \<Rightarrow> ShortenerTransform \<Rightarrow> pyval \<Rightarrow> error + pyval"
  and traverse_entry :: "pyenv \<Rightarrow> ShortenerTransform \<Rightarrow> (pyval \<Rightarrow> bool) \<Rightarrow> pyval \<Rightarrow> error + pyval"
  and traverse_items :: "pyenv \<Rightarrow> ShortenerTransform \<Rightarrow> (pyval \<times> pyval) list \<Rightarrow> error + (pyval \<times> pyval) list"
  and traverse_elems :: "pyenv \<Rightarrow> ShortenerTransform \<Rightarrow> (pyval \<Rightarrow> bool) \<Rightarrow> pyval list \<Rightarrow> error + pyval list"
where
  "shorten env t val =
     (let max_size = get_max_size t val in
      if is_dict val then
        (case shorten_mapping t val max_size of
           Inl e \<Rightarrow> Inl e
         | Inr val' \<Rightarrow> traverse_obj env t val')
      else if is_string val then shorten_sequence env t val max_size
      else if is_sequence env val then
        (case shorten_sequence env t val max_size of
           Inl e \<Rightarrow> Inl e
         | Inr val' \<Rightarrow> traverse_obj env t val')
      else if is_number val then shorten_basic env t val (maxlong (repr_obj t))
      else shorten_other env t val)"
| "traverse_obj env t (PDict items) =
     (case traverse_items env t items of Inl e \<Rightarrow> Inl e | Inr items' \<Rightarrow> Inr (PDict items'))"
| "traverse_obj env t (PList xs) =
     (case traverse_elems env t (\<lambda>v. True) xs of Inl e \<Rightarrow> Inl e | Inr xs' \<Rightarrow> Inr (PList xs'))"
| "traverse_obj env t (PDeque xs) =
     (case traverse_elems env t (\<lambda>v. True) xs of Inl e \<Rightarrow> Inl e | Inr xs' \<Rightarrow> Inr (PDeque xs'))"
| "traverse_obj env t (PArray tc xs) =
     (case traverse_elems env t (array_accepts tc) xs of
        Inl e \<Rightarrow> Inl e | Inr xs' \<Rightarrow> Inr (PArray tc xs'))"
| "traverse_obj env t (PTuple xs) =
     (case traverse_elems env t (\<lambda>v. False) xs of Inl e \<Rightarrow> Inl e | Inr xs' \<Rightarrow> Inr (PTuple xs'))"
| "traverse_obj env t (PSet xs) = (if xs = [] then Inr (PSet xs) else Inl TypeError)"
| "traverse_obj env t (PFrozenset xs) = (if xs = [] then Inr (PFrozenset xs) else Inl TypeError)"
| "traverse_obj env t (PMapping ob items) =
     (if mapping_is_sequence env \<and> items \<noteq> [] then
        (case find (\<lambda>(k, v). key_is_zero k) items of
           None \<Rightarrow> Inl KeyError
         | Some (k, v) \<Rightarrow>
             (case traverse_entry env t (\<lambda>v. False) v of Inl e \<Rightarrow> Inl e | Inr v' \<Rightarrow> Inl TypeError))
      else Inr (PMapping ob items))"
| "traverse_obj env t d = Inr d"
| "traverse_entry env t accepts v =
     (if is_dict v then
        (case shorten_mapping t v (get_max_size t v) of
           Inl e \<Rightarrow> Inl e
         | Inr v' \<Rightarrow> if accepts v' then traverse_obj env t v' else Inl TypeError)
      else if is_sequence env v then
        (case shorten_sequence env t v (get_max_size t v) of
           Inl e \<Rightarrow> Inl e
         | Inr v' \<Rightarrow> if accepts v' then traverse_obj env t v' else Inl TypeError)
      else
        (case shorten env t v of
           Inl e \<Rightarrow> Inl e
         | Inr v' \<Rightarrow> if accepts v' then Inr v' else Inl TypeError))"
| "traverse_items env t [] = Inr []"
| "traverse_items env t ((k, v) # rest) =
     (case traverse_entry env t (\<lambda>v. True) v of
        Inl e \<Rightarrow> Inl e
      | Inr v' \<Rightarrow>
          (case traverse_items env t rest of
             Inl e \<Rightarrow> Inl e
           | Inr rest' \<Rightarrow> Inr ((k, v') # rest')))"
| "traverse_elems env t accepts [] = Inr []"
| "traverse_elems env t accepts (v # vs) =
     (case traverse_entry env t accepts v of
        Inl e \<Rightarrow> Inl e
      | Inr v' \<Rightarrow>
          (case traverse_elems env t accepts vs of
             Inl e \<Rightarrow> Inl e
           | Inr vs' \<Rightarrow> Inr (v' # vs')))"
  by pat_completeness auto

termination
proof (relation "inv_image (less_than <*lex*> less_than <*lex*> less_than) call_rank", goal_cases)
  case 1
  show ?case by (intro wf_inv_image wf_lex_prod wf_less_than)
next
  case (9 env t ob items x2 x y)
  then have "(x, y) \<in> set items"
    by (auto simp: find_Some_iff in_set_conv_nth)
  then have "height y \<in> set (map (\<lambda>(k, v). height v) items)" by force
  from list_max_ge [OF this] show ?case by simp
qed (auto simp: list_max_Cons less_Suc_eq_le
       dest: height_shorten_mapping height_shorten_sequence)

declare shorten.simps [simp del] traverse_entry.simps [simp del]


subsection \<open>The entry point\<close>

definition should_shorten ::
  "(pykey \<Rightarrow> pykey list option \<Rightarrow> bool) \<Rightarrow> ShortenerTransform \<Rightarrow> pyval \<Rightarrow> pykey \<Rightarrow> bool" where
  "should_shorten key_in t val key = (if \<not> truthy key then False else key_in key (keys t))"

text \<open>Modelled from the spec: \<^verbatim>\<open>Transform.default\<close>, the method of the base class in
  \<^verbatim>\<open>rollbar/lib/transform.py\<close>, which is not among the sources. The spec says of a value
  that is not eligible that it "is returned completely unmodified".\<close>

definition Transform_default :: "pyval \<Rightarrow> pykey \<Rightarrow> pyval" where
  "Transform_default ob key = ob"

text \<open>\<^verbatim>\<open>default(self, o, key=None)\<close>. \<open>key_in\<close> is \<^verbatim>\<open>rollbar.lib.key_in\<close>, which is
  not among the sources: a parameter.\<close>

definition default ::
  "(pykey \<Rightarrow> pykey list option \<Rightarrow> bool) \<Rightarrow> pyenv \<Rightarrow> ShortenerTransform \<Rightarrow> pyval \<Rightarrow> pykey
     \<Rightarrow> error + pyval" where
  "default key_in env t ob key =
     (if should_shorten key_in t ob key then shorten env t ob
      else Inr (Transform_default ob key))"


section \<open>Concrete inputs\<close>

text \<open>The inputs of the examples below: an environment that lists a set in iteration order,
  with and without \<^verbatim>\<open>Mapping\<close> among the sequence types, and the transform that
  \<^verbatim>\<open>ShortenerTransform()\<close> builds.\<close>

definition env_listed :: pyenv where
  "env_listed = \<lparr> possibly_sorted = (\<lambda>xs. xs), mapping_is_sequence = True \<rparr>"

definition env_unlisted :: pyenv where
  "env_unlisted = \<lparr> possibly_sorted = (\<lambda>xs. xs), mapping_is_sequence = False \<rparr>"

definition plain :: ShortenerTransform where
  "plain = \<lparr> safe_repr = True, keys = None, repr_obj = Repr_init \<rparr>"

text \<open>A key test for the examples: the key is one of the listed keys.\<close>

definition listed_key :: "pykey \<Rightarrow> pykey list option \<Rightarrow> bool" where
  "listed_key key ks = (case ks of None \<Rightarrow> False | Some l \<Rightarrow> key \<in> set l)"


lemma get_max_size_simps [simp]:
  "get_max_size t (PStr s) = maxstring (repr_obj t)"
  "get_max_size t (PInt i) = maxlong (repr_obj t)"
  "get_max_size t (PBool b) = maxlong (repr_obj t)"
  "get_max_size t (PDict items) = maxdict (repr_obj t)"
  "get_max_size t (PMapping ob items) = maxdict (repr_obj t)"
  "get_max_size t (PList xs) = maxlist (repr_obj t)"
  "get_max_size t (PTuple xs) = maxtuple (repr_obj t)"
  "get_max_size t (PSet xs) = maxset (repr_obj t)"
  "get_max_size t (PFrozenset xs) = maxfrozenset (repr_obj t)"
  "get_max_size t (PArray tc xs) = maxarray (repr_obj t)"
  "get_max_size t (PDeque xs) = maxdeque (repr_obj t)"
  "get_max_size t PNone = maxother (repr_obj t)"
  "get_max_size t (PFloat s) = maxother (repr_obj t)"
  "get_max_size t (PObject ob) = maxother (repr_obj t)"
  by (simp_all add: get_max_size_def type_name_mapping_def getattr_max_def)


lemmas text_rules = int_str_def nat_digits.simps digit_char_def bool_str_def str_repr_def
  escape_char_def squote_def dquote_def bslash_def hex2_def printable_high_def

lemma Repr_repr1_numeral:
  "Repr_repr1 env r (numeral k) x =
     repr_dispatch env r (Repr_repr1 env r (pred_numeral k)) (numeral k) x"
  by (simp add: numeral_eq_Suc)

lemmas repr_rules = Repr_repr_def repr_dispatch_def repr_iterable_def repr_dict_def repr_str_def
  repr_int_def repr_instance_def elide_def cut_i_def cut_j_def slice_from_def fillvalue_def
  descriptor_def instance_repr_def Repr_repr1_numeral Let_def

lemmas strategy_rules = shorten.simps traverse_entry.simps shorten_sequence_def
  shorten_mapping_def shorten_basic_def shorten_other_def array_accepts_def key_is_zero_def


section \<open>The other strategy keeps \<^verbatim>\<open>None\<close>\<close>

text \<open>C9. \<^verbatim>\<open>_shorten_other\<close> returns \<^verbatim>\<open>None\<close> unchanged, whatever the safe-repr flag
  and the limits of the transform are: it is neither turned into text nor summarised.\<close>

theorem shorten_other_None: "shorten_other env t PNone = Inr PNone"
  by (simp add: shorten_other_def)

section \<open>Values that are not eligible pass through\<close>

text \<open>C6. When \<^verbatim>\<open>default\<close> is called with no key, or with a key that \<^verbatim>\<open>key_in\<close> does
  not find in the eligibility set, the result is the value itself, whatever its size:
  \<^verbatim>\<open>_shorten\<close> is not run on it.\<close>

theorem default_not_eligible:
  "key = KNone \<or> \<not> key_in key (keys t) \<Longrightarrow> default key_in env t ob key = Inr ob"
  by (auto simp: default_def should_shorten_def Transform_default_def)

text \<open>A tuple of one element, on which \<^verbatim>\<open>_shorten\<close> raises, passes through under no key
  and under a key that is not listed.\<close>

theorem default_not_eligible_witness:
  "default listed_key env_listed plain (PTuple [PInt 1]) KNone = Inr (PTuple [PInt 1]) \<and>
   default listed_key env_listed (plain\<lparr>keys := Some [KStr ''locals'']\<rparr>) (PTuple [PInt 1])
     (KStr ''args'') = Inr (PTuple [PInt 1])"
  using default_not_eligible [of KNone listed_key plain env_listed "PTuple [PInt 1]"]
    default_not_eligible [of "KStr ''args''" listed_key "plain\<lparr>keys := Some [KStr ''locals'']\<rparr>"
      env_listed "PTuple [PInt 1]"]
  by (simp add: listed_key_def)

text \<open>C10. A key that is false in a condition (\<^verbatim>\<open>None\<close>, the empty text, zero, the empty
  tuple) makes \<^verbatim>\<open>default\<close> return the value itself, whatever \<^verbatim>\<open>key_in\<close> would answer:
  \<^verbatim>\<open>_should_shorten\<close> returns before it consults the eligibility set.\<close>

theorem default_falsy_key:
  "\<not> truthy key \<Longrightarrow> default key_in env t ob key = Inr ob"
  by (simp add: default_def should_shorten_def Transform_default_def)

text \<open>The empty text and the empty tuple as keys, both listed in the eligibility set.\<close>

theorem default_falsy_key_witness:
  "listed_key (KStr []) (keys (plain\<lparr>keys := Some [KStr [], KTuple []]\<rparr>)) \<and>
   default listed_key env_listed (plain\<lparr>keys := Some [KStr [], KTuple []]\<rparr>) (PTuple [PInt 1])
     (KStr []) = Inr (PTuple [PInt 1]) \<and>
   listed_key (KTuple []) (keys (plain\<lparr>keys := Some [KStr [], KTuple []]\<rparr>)) \<and>
   default listed_key env_listed (plain\<lparr>keys := Some [KStr [], KTuple []]\<rparr>) (PTuple [PInt 1])
     (KTuple []) = Inr (PTuple [PInt 1])"
  using default_falsy_key [of "KStr []" listed_key env_listed
      "plain\<lparr>keys := Some [KStr [], KTuple []]\<rparr>" "PTuple [PInt 1]"]
    default_falsy_key [of "KTuple []" listed_key env_listed
      "plain\<lparr>keys := Some [KStr [], KTuple []]\<rparr>" "PTuple [PInt 1]"]
  by (simp add: listed_key_def)

section \<open>Construction\<close>

text \<open>The limits that \<^verbatim>\<open>_get_max_size\<close> reads.\<close>

definition category_limits :: "Repr \<Rightarrow> nat list" where
  "category_limits r =
     [maxstring r, maxlong r, maxdict r, maxlist r, maxtuple r, maxset r, maxfrozenset r,
      maxarray r, maxdeque r, maxother r]"

lemma setattr_unknown:
  "\<not> known_category name \<Longrightarrow> category_limits (setattr r name sz) = category_limits r"
  by (simp add: known_category_def type_name_mapping_def setattr_def category_limits_def)

lemma setattr_cong:
  "category_limits r = category_limits r' \<Longrightarrow>
   category_limits (setattr r name sz) = category_limits (setattr r' name sz)"
  by (simp add: setattr_def category_limits_def)

lemma fold_setattr_known:
  "category_limits r = category_limits r' \<Longrightarrow>
   category_limits (fold (\<lambda>(name, sz) r. setattr r name sz) sizes r) =
   category_limits (fold (\<lambda>(name, sz) r. setattr r name sz)
      (filter (\<lambda>(name, sz). known_category name) sizes) r')"
proof (induction sizes arbitrary: r r')
  case Nil
  then show ?case by simp
next
  case (Cons p sizes)
  obtain name sz where p: "p = (name, sz)" by (cases p)
  show ?case
  proof (cases "known_category name")
    case True
    with p show ?thesis
      using Cons.IH [OF setattr_cong [OF Cons.prems, of name sz]] by simp
  next
    case False
    have "category_limits (setattr r name sz) = category_limits r'"
      using setattr_unknown [OF False] Cons.prems by simp
    from Cons.IH [OF this] False p show ?thesis by simp
  qed
qed

lemma max_size_loop_limits:
  "category_limits r = category_limits r' \<Longrightarrow>
   max_size_loop r obj type_name_mapping = max_size_loop r' obj type_name_mapping"
  by (simp add: category_limits_def type_name_mapping_def getattr_max_def)

text \<open>C7, as the code has it. \<^verbatim>\<open>__init__\<close> never fails: every list of size overrides
  gives a transform, with the flag and the eligibility set it was given. An override whose
  name is not \<^verbatim>\<open>max<category>\<close> changes no limit that \<^verbatim>\<open>_get_max_size\<close> reads: the
  transform classifies every value as the transform built from the known names alone
  does.\<close>

theorem init_never_fails:
  "\<exists>t t'. init sr ks sizes = Inr t \<and> safe_repr t = sr \<and> keys t = ks \<and>
     init sr ks (filter (\<lambda>(name, sz). known_category name) sizes) = Inr t' \<and>
     (\<forall>obj. get_max_size t obj = get_max_size t' obj)"
  using max_size_loop_limits [OF fold_setattr_known [OF refl, of sizes Repr_init]]
  by (simp add: init_def get_max_size_def)

text \<open>C7 as the claim states it fails: \<^verbatim>\<open>ShortenerTransform(maxbogus=3)\<close> names no
  category, and the construction succeeds.\<close>

theorem init_unknown_name_counterexample:
  "\<not> known_category ''maxbogus'' \<and>
   init True None [(''maxbogus'', 3)] =
     Inr \<lparr> safe_repr = True, keys = None,
           repr_obj = Repr_init\<lparr>extra_attrs := [(''maxbogus'', 3)]\<rparr> \<rparr>"
  by (simp add: known_category_def type_name_mapping_def init_def setattr_def Repr_init_def)

section \<open>The mapping strategy\<close>

fun py_items :: "pyval \<Rightarrow> (pyval \<times> pyval) list" where
  "py_items (PDict items) = items"
| "py_items (PMapping ob items) = items"
| "py_items _ = []"

lemma update_fresh: "k \<notin> fst ` set acc \<Longrightarrow> AList.update k v acc = acc @ [(k, v)]"
  by (induction acc) auto

lemma dict_comp_distinct:
  "distinct (map fst (acc @ rest)) \<Longrightarrow> (\<forall>(k, v) \<in> set rest. getitem obj k = Inr v) \<Longrightarrow>
   dict_comp obj (map fst rest) acc = Inr (PDict (acc @ rest))"
proof (induction rest arbitrary: acc)
  case Nil
  then show ?case by simp
next
  case (Cons p rest)
  obtain k v where p: "p = (k, v)" by (cases p)
  from Cons.prems p have fresh: "k \<notin> fst ` set acc" by auto
  from Cons.prems p have get: "getitem obj k = Inr v" by simp
  have "dict_comp obj (map fst rest) (acc @ [(k, v)]) = Inr (PDict ((acc @ [(k, v)]) @ rest))"
    using Cons.prems p by (intro Cons.IH) auto
  then show ?case using p get update_fresh [OF fresh] by simp
qed

lemma getitem_own:
  "is_Mapping obj \<Longrightarrow> distinct (map fst (py_items obj)) \<Longrightarrow> (k, v) \<in> set (py_items obj) \<Longrightarrow>
   getitem obj k = Inr v"
  by (cases obj) auto

lemma py_keys_items: "is_Mapping obj \<Longrightarrow> py_keys obj = Inr (map fst (py_items obj))"
  by (cases obj) auto

lemma py_len_items: "is_Mapping obj \<Longrightarrow> py_len obj = Inr (length (py_items obj))"
  by (cases obj) auto

text \<open>C4. A mapping whose key count is within the limit is returned as it is. A larger one is
  replaced by a new dict that holds the first \<open>limit\<close> keys in iteration order, each with the
  value it had: the values are not shortened at this step. (The keys of a Python mapping are
  distinct.)\<close>

theorem shorten_mapping_first_keys:
  assumes "is_Mapping obj" and "distinct (map fst (py_items obj))"
  shows "shorten_mapping t obj limit =
    Inr (if length (py_items obj) \<le> limit then obj else PDict (take limit (py_items obj)))"
proof (cases "length (py_items obj) \<le> limit")
  case True
  then show ?thesis using assms by (simp add: shorten_mapping_def py_len_items)
next
  case False
  let ?pre = "take limit (py_items obj)"
  have "distinct (map fst ([] @ ?pre))"
    using assms(2) by (simp add: take_map [symmetric] distinct_take)
  moreover have "\<forall>(k, v) \<in> set ?pre. getitem obj k = Inr v"
    using assms by (auto dest: in_set_takeD intro: getitem_own)
  ultimately have "dict_comp obj (map fst ?pre) [] = Inr (PDict ([] @ ?pre))"
    by (rule dict_comp_distinct)
  then show ?thesis using False assms
    by (simp add: shorten_mapping_def py_len_items py_keys_items take_map)
qed

text \<open>The example of the spec: a dict of five keys under a limit of three keeps its first
  three keys, and the list of ten integers under the first key is still a list.\<close>

theorem shorten_mapping_first_keys_witness:
  "shorten_mapping plain
     (PDict [(PStr ''a'', PList [PInt 0, PInt 1, PInt 2, PInt 3, PInt 4, PInt 5, PInt 6, PInt 7,
                PInt 8, PInt 9]),
             (PStr ''b'', PInt 2), (PStr ''c'', PNone), (PStr ''d'', PInt 4), (PStr ''e'', PInt 5)]) 3 =
   Inr (PDict [(PStr ''a'', PList [PInt 0, PInt 1, PInt 2, PInt 3, PInt 4, PInt 5, PInt 6, PInt 7,
                PInt 8, PInt 9]),
               (PStr ''b'', PInt 2), (PStr ''c'', PNone)])"
  using shorten_mapping_first_keys [of
      "PDict [(PStr ''a'', PList [PInt 0, PInt 1, PInt 2, PInt 3, PInt 4, PInt 5, PInt 6, PInt 7,
                PInt 8, PInt 9]),
             (PStr ''b'', PInt 2), (PStr ''c'', PNone), (PStr ''d'', PInt 4), (PStr ''e'', PInt 5)]"
      plain 3]
  by simp

section \<open>Where the transform raises\<close>

text \<open>An entry that its container does not take is a \<^verbatim>\<open>TypeError\<close>, or the exception that
  computing the new entry raised before it.\<close>

lemma traverse_entry_rejected: "\<exists>e. traverse_entry env t (\<lambda>v. False) v = Inl e"
  by (auto simp: traverse_entry.simps split: sum.splits)

lemma tuple_within_limit_raises:
  "xs \<noteq> [] \<Longrightarrow> length xs \<le> maxtuple (repr_obj t) \<Longrightarrow> \<exists>e. shorten env t (PTuple xs) = Inl e"
  using traverse_entry_rejected [of env t "hd xs"]
  by (cases xs) (auto simp: shorten.simps shorten_sequence_def)

text \<open>C2. With the limits of \<^verbatim>\<open>reprlib.Repr()\<close>, \<^verbatim>\<open>_shorten\<close> raises on the tuple
  \<^verbatim>\<open>(1,)\<close>, on a list that holds it, on the set \<^verbatim>\<open>{1}\<close>, and on an object whose
  \<^verbatim>\<open>__str__\<close> raises: \<^verbatim>\<open>traverse_obj\<close> assigns into the tuple and indexes the set, and
  \<^verbatim>\<open>_shorten_other\<close> calls \<^verbatim>\<open>str\<close> outside any handler.\<close>

theorem shorten_raises:
  "shorten env_listed plain (PTuple [PInt 1]) = Inl TypeError \<and>
   shorten env_listed plain (PList [PTuple [PInt 1]]) = Inl TypeError \<and>
   shorten env_listed plain (PSet [PInt 1]) = Inl TypeError \<and>
   shorten env_listed plain (PObject (PyObj ''Broken'' None None 0)) = Inl ObjectError"
  by (simp add: strategy_rules plain_def Repr_init_def text_rules)

section \<open>A mapping that is not a dict\<close>

text \<open>A read-only view of \<^verbatim>\<open>{1: 2, 3: 4}\<close>, as \<^verbatim>\<open>types.MappingProxyType\<close> gives it, and
  the default transform with the mapping limit set to 1.\<close>

definition proxy :: pyval where
  "proxy = PMapping (PyObj ''mappingproxy'' (Some ''{1: 2, 3: 4}'')
             (Some ''mappingproxy({1: 2, 3: 4})'') 0) [(PInt 1, PInt 2), (PInt 3, PInt 4)]"

definition one_key :: ShortenerTransform where
  "one_key = plain\<lparr>repr_obj := Repr_init\<lparr>maxdict := 1\<rparr>\<rparr>"

text \<open>C8. \<^verbatim>\<open>_get_max_size\<close> gives the mapping its limit, 1, and the mapping strategy would
  cut it to its first key. \<^verbatim>\<open>_shorten\<close> tests \<^verbatim>\<open>isinstance(val, dict)\<close>, which the
  mapping fails: it is summarised as a sequence where \<^verbatim>\<open>sequence_types\<close> lists
  \<^verbatim>\<open>Mapping\<close>, and turned into text by the other strategy where it does not. Within its
  limit, the traversal indexes it by position and raises.\<close>

theorem mapping_not_shortened_as_mapping:
  "get_max_size one_key proxy = 1 \<and>
   shorten_mapping one_key proxy 1 = Inr (PDict [(PInt 1, PInt 2)]) \<and>
   shorten env_listed one_key proxy = Inr (PStr ''mappingproxy({1: 2, 3: 4})'') \<and>
   shorten env_unlisted one_key proxy = Inr (PStr (squote # ''{1: 2, 3: 4}'' @ [squote])) \<and>
   shorten env_listed plain proxy = Inl KeyError"
  by (simp add: strategy_rules plain_def one_key_def proxy_def Repr_init_def text_rules repr_rules
      env_listed_def env_unlisted_def)

section \<open>What the transform returns\<close>

text \<open>
  The shape of a value that \<^verbatim>\<open>_shorten\<close> returned. A number is short enough as text; a
  dict, a list, a deque and an array are within their limits and hold such values again (an
  array holds values of its type code); a tuple, a set, a frozenset and a mapping that is not
  a dict are empty, since the traversal raises on any other; no opaque object is left. Text
  is any text.
\<close>

fun settled :: "pyenv \<Rightarrow> ShortenerTransform \<Rightarrow> pyval \<Rightarrow> bool" where
  "settled env t PNone = True"
| "settled env t (PBool b) = (length (bool_str b) \<le> maxlong (repr_obj t))"
| "settled env t (PInt i) = (length (int_str i) \<le> maxlong (repr_obj t))"
| "settled env t (PFloat s) = (length s \<le> maxlong (repr_obj t))"
| "settled env t (PStr s) = True"
| "settled env t (PDict items) =
     (length items \<le> maxdict (repr_obj t) \<and> list_all (\<lambda>(k, v). settled env t v) items)"
| "settled env t (PList xs) = (length xs \<le> maxlist (repr_obj t) \<and> list_all (settled env t) xs)"
| "settled env t (PDeque xs) = (length xs \<le> maxdeque (repr_obj t) \<and> list_all (settled env t) xs)"
| "settled env t (PArray tc xs) =
     (length xs \<le> maxarray (repr_obj t) \<and> list_all (\<lambda>v. settled env t v \<and> array_accepts tc v) xs)"
| "settled env t (PTuple xs) = (xs = [])"
| "settled env t (PSet xs) = (xs = [])"
| "settled env t (PFrozenset xs) = (xs = [])"
| "settled env t (PMapping ob items) = (mapping_is_sequence env \<and> items = [])"
| "settled env t (PObject ob) = False"

text \<open>What \<^verbatim>\<open>traverse_obj\<close> is called on: text, or a dict or sequence that its strategy
  has found within its limit.\<close>

definition fits :: "pyenv \<Rightarrow> ShortenerTransform \<Rightarrow> pyval \<Rightarrow> bool" where
  "fits env t d =
     (is_string d \<or>
      (is_dict d \<or> is_sequence env d) \<and>
      (case py_len d of Inl e \<Rightarrow> False | Inr n \<Rightarrow> n \<le> get_max_size t d))"

lemma update_length: "length (AList.update k v acc) \<le> Suc (length acc)"
  by (induction acc) auto

lemma dict_comp_length:
  "dict_comp obj ks acc = Inr b \<Longrightarrow> \<exists>acc'. b = PDict acc' \<and> length acc' \<le> length acc + length ks"
proof (induction ks arbitrary: acc)
  case Nil
  then show ?case by auto
next
  case (Cons k ks)
  then obtain v where "dict_comp obj ks (AList.update k v acc) = Inr b"
    by (auto split: sum.splits)
  from Cons.IH [OF this] obtain acc' where "b = PDict acc'"
    and "length acc' \<le> length (AList.update k v acc) + length ks" by blast
  then show ?case using update_length [of k v acc] by auto
qed

lemma fits_shorten_mapping:
  assumes "shorten_mapping t v (get_max_size t v) = Inr b" and "is_dict v"
  shows "fits env t b"
proof -
  from assms(2) obtain items where v: "v = PDict items" by (cases v) auto
  show ?thesis
  proof (cases "length items \<le> maxdict (repr_obj t)")
    case True
    then show ?thesis using assms(1) v by (auto simp: shorten_mapping_def fits_def)
  next
    case False
    then have "dict_comp v (take (maxdict (repr_obj t)) (map fst items)) [] = Inr b"
      using assms(1) v by (simp add: shorten_mapping_def)
    from dict_comp_length [OF this] obtain acc' where "b = PDict acc'"
      and "length acc' \<le> maxdict (repr_obj t)" by auto
    then show ?thesis by (simp add: fits_def)
  qed
qed

lemma fits_shorten_sequence:
  "shorten_sequence env t v (get_max_size t v) = Inr b \<Longrightarrow> is_sequence env v \<Longrightarrow> fits env t b"
  by (auto simp: fits_def shorten_sequence_def split: sum.splits if_splits)

lemma string_shorten_sequence:
  "shorten_sequence env t v n = Inr b \<Longrightarrow> is_string v \<Longrightarrow> is_string b"
  by (auto simp: shorten_sequence_def split: sum.splits if_splits)

lemma settled_string: "is_string b \<Longrightarrow> settled env t b"
  by (cases b) auto

lemma settled_shorten_basic:
  "shorten_basic env t v (maxlong (repr_obj t)) = Inr b \<Longrightarrow> is_number v \<Longrightarrow> settled env t b"
  by (cases v) (auto simp: shorten_basic_def split: sum.splits if_splits)

lemma settled_shorten_other: "shorten_other env t v = Inr b \<Longrightarrow> settled env t b"
  by (auto simp: shorten_other_def split: sum.splits if_splits)

text \<open>A test on the value to store that still holds once the stored value was traversed in
  place. The three tests of \<^verbatim>\<open>traverse_obj\<close> are of this kind.\<close>

definition stable :: "pyenv \<Rightarrow> ShortenerTransform \<Rightarrow> (pyval \<Rightarrow> bool) \<Rightarrow> bool" where
  "stable env t accepts = (\<forall>b v'. accepts b \<longrightarrow> traverse_obj env t b = Inr v' \<longrightarrow> accepts v')"

lemma stable_True: "stable env t (\<lambda>v. True)"
  by (simp add: stable_def)

lemma stable_False: "stable env t (\<lambda>v. False)"
  by (simp add: stable_def)

lemma stable_array: "stable env t (array_accepts tc)"
  unfolding stable_def
proof (intro allI impI)
  fix b v' assume "array_accepts tc b" and "traverse_obj env t b = Inr v'"
  then show "array_accepts tc v'" by (cases b) (auto simp: array_accepts_def)
qed

lemma shorten_shape:
  "\<forall>v'. shorten env t v = Inr v' \<longrightarrow> settled env t v'"
  "\<forall>d'. fits env t d \<longrightarrow> traverse_obj env t d = Inr d' \<longrightarrow> settled env t d'"
  "\<forall>v'. stable env t accepts \<longrightarrow> traverse_entry env t accepts v = Inr v' \<longrightarrow>
     settled env t v' \<and> accepts v'"
  "\<forall>items'. traverse_items env t items = Inr items' \<longrightarrow>
     length items' = length items \<and> list_all (\<lambda>(k, v). settled env t v) items'"
  "\<forall>xs'. stable env t accepts \<longrightarrow> traverse_elems env t accepts xs = Inr xs' \<longrightarrow>
     length xs' = length xs \<and> list_all (\<lambda>v. settled env t v \<and> accepts v) xs'"
proof (induction env t v and env t d and env t accepts v and env t items and env t accepts xs
    rule: shorten_traverse_obj_traverse_entry_traverse_items_traverse_elems.induct)
  case (1 env t val)
  show ?case
  proof (intro allI impI)
    fix v' assume run: "shorten env t val = Inr v'"
    consider (dict) "is_dict val" | (strg) "\<not> is_dict val" "is_string val"
      | (seq) "\<not> is_dict val" "\<not> is_string val" "is_sequence env val"
      | (num) "\<not> is_dict val" "\<not> is_string val" "\<not> is_sequence env val" "is_number val"
      | (other) "\<not> is_dict val" "\<not> is_string val" "\<not> is_sequence env val" "\<not> is_number val"
      by blast
    then show "settled env t v'"
    proof cases
      case dict
      with run obtain b where b: "shorten_mapping t val (get_max_size t val) = Inr b"
        and tr: "traverse_obj env t b = Inr v'"
        by (auto simp: shorten.simps split: sum.splits)
      from "1.IH"(1) [OF refl dict b] fits_shorten_mapping [OF b dict] tr show ?thesis by blast
    next
      case strg
      with run have "shorten_sequence env t val (get_max_size t val) = Inr v'"
        by (simp add: shorten.simps)
      from string_shorten_sequence [OF this strg(2)] show ?thesis by (rule settled_string)
    next
      case seq
      with run obtain b where b: "shorten_sequence env t val (get_max_size t val) = Inr b"
        and tr: "traverse_obj env t b = Inr v'"
        by (auto simp: shorten.simps split: sum.splits)
      from "1.IH"(2) [OF refl seq b] fits_shorten_sequence [OF b seq(3)] tr show ?thesis by blast
    next
      case num
      with run have "shorten_basic env t val (maxlong (repr_obj t)) = Inr v'"
        by (simp add: shorten.simps)
      then show ?thesis using num(4) by (rule settled_shorten_basic)
    next
      case other
      with run have "shorten_other env t val = Inr v'"
        by (simp add: shorten.simps)
      then show ?thesis by (rule settled_shorten_other)
    qed
  qed
next
  case (2 env t items)
  show ?case
  proof (intro allI impI)
    fix d' assume fit: "fits env t (PDict items)" and run: "traverse_obj env t (PDict items) = Inr d'"
    from run obtain items' where items': "traverse_items env t items = Inr items'"
      and d': "d' = PDict items'"
      by (auto split: sum.splits)
    from "2.IH" items' have "length items' = length items"
      and "list_all (\<lambda>(k, v). settled env t v) items'" by blast+
    moreover from fit have "length items \<le> maxdict (repr_obj t)" by (simp add: fits_def)
    ultimately show "settled env t d'" using d' by simp
  qed
next
  case (3 env t xs)
  show ?case
  proof (intro allI impI)
    fix d' assume fit: "fits env t (PList xs)" and run: "traverse_obj env t (PList xs) = Inr d'"
    from run obtain xs' where xs': "traverse_elems env t (\<lambda>v. True) xs = Inr xs'"
      and d': "d' = PList xs'"
      by (auto split: sum.splits)
    from "3.IH" stable_True [of env t] xs' have "length xs' = length xs"
      and "list_all (\<lambda>v. settled env t v \<and> (\<lambda>v. True) v) xs'" by blast+
    moreover from fit have "length xs \<le> maxlist (repr_obj t)" by (simp add: fits_def)
    ultimately show "settled env t d'" using d' by (simp add: list_all_iff)
  qed
next
  case (4 env t xs)
  show ?case
  proof (intro allI impI)
    fix d' assume fit: "fits env t (PDeque xs)" and run: "traverse_obj env t (PDeque xs) = Inr d'"
    from run obtain xs' where xs': "traverse_elems env t (\<lambda>v. True) xs = Inr xs'"
      and d': "d' = PDeque xs'"
      by (auto split: sum.splits)
    from "4.IH" stable_True [of env t] xs' have "length xs' = length xs"
      and "list_all (\<lambda>v. settled env t v \<and> (\<lambda>v. True) v) xs'" by blast+
    moreover from fit have "length xs \<le> maxdeque (repr_obj t)" by (simp add: fits_def)
    ultimately show "settled env t d'" using d' by (simp add: list_all_iff)
  qed
next
  case (5 env t tc xs)
  show ?case
  proof (intro allI impI)
    fix d' assume fit: "fits env t (PArray tc xs)" and run: "traverse_obj env t (PArray tc xs) = Inr d'"
    from run obtain xs' where xs': "traverse_elems env t (array_accepts tc) xs = Inr xs'"
      and d': "d' = PArray tc xs'"
      by (auto split: sum.splits)
    from "5.IH" stable_array [of env t tc] xs' have "length xs' = length xs"
      and "list_all (\<lambda>v. settled env t v \<and> (array_accepts tc) v) xs'" by blast+
    moreover from fit have "length xs \<le> maxarray (repr_obj t)" by (simp add: fits_def)
    ultimately show "settled env t d'" using d' by (simp add: list_all_iff)
  qed
next
  case (6 env t xs)
  show ?case
  proof (intro allI impI)
    fix d' assume run: "traverse_obj env t (PTuple xs) = Inr d'"
    from run obtain xs' where xs': "traverse_elems env t (\<lambda>v. False) xs = Inr xs'"
      and d': "d' = PTuple xs'"
      by (auto split: sum.splits)
    from "6.IH" stable_False [of env t] xs' have "list_all (\<lambda>v. settled env t v \<and> False) xs'"
      by blast
    then have "xs' = []" by (cases xs') auto
    then show "settled env t d'" using d' by simp
  qed
next
  case (9 env t ob items)
  show ?case
  proof (intro allI impI)
    fix d' assume fit: "fits env t (PMapping ob items)"
      and run: "traverse_obj env t (PMapping ob items) = Inr d'"
    from fit have "mapping_is_sequence env" by (simp add: fits_def)
    moreover from this run have "items = []" and "d' = PMapping ob items"
      by (auto split: if_splits option.splits sum.splits)
    ultimately show "settled env t d'" by simp
  qed
next
  case (11 env t accepts v)
  show ?case
  proof (intro allI impI)
    fix v' assume st: "stable env t accepts" and run: "traverse_entry env t accepts v = Inr v'"
    consider (dict) "is_dict v" | (seq) "\<not> is_dict v" "is_sequence env v"
      | (leaf) "\<not> is_dict v" "\<not> is_sequence env v"
      by blast
    then show "settled env t v' \<and> accepts v'"
    proof cases
      case dict
      with run obtain b where b: "shorten_mapping t v (get_max_size t v) = Inr b"
        and acc: "accepts b" and tr: "traverse_obj env t b = Inr v'"
        by (auto simp: traverse_entry.simps split: sum.splits if_splits)
      have "settled env t v'"
        using "11.IH"(1) [OF dict b acc] fits_shorten_mapping [OF b dict] tr by blast
      moreover have "accepts v'" using st acc tr by (auto simp: stable_def)
      ultimately show ?thesis ..
    next
      case seq
      with run obtain b where b: "shorten_sequence env t v (get_max_size t v) = Inr b"
        and acc: "accepts b" and tr: "traverse_obj env t b = Inr v'"
        by (auto simp: traverse_entry.simps split: sum.splits if_splits)
      have "settled env t v'"
        using "11.IH"(2) [OF seq b acc] fits_shorten_sequence [OF b seq(2)] tr by blast
      moreover have "accepts v'" using st acc tr by (auto simp: stable_def)
      ultimately show ?thesis ..
    next
      case leaf
      with run have "shorten env t v = Inr v'" and "accepts v'"
        by (auto simp: traverse_entry.simps split: sum.splits if_splits)
      with "11.IH"(3) [OF leaf] show ?thesis by blast
    qed
  qed
next
  case (13 env t k v rest)
  show ?case
  proof (intro allI impI)
    fix items' assume run: "traverse_items env t ((k, v) # rest) = Inr items'"
    from run obtain v' rest' where v': "traverse_entry env t (\<lambda>v. True) v = Inr v'"
      and rest': "traverse_items env t rest = Inr rest'" and items': "items' = (k, v') # rest'"
      by (auto split: sum.splits)
    from "13.IH"(1) stable_True [of env t] v' have "settled env t v'" by blast
    moreover from "13.IH"(2) [OF v'] rest' have "length rest' = length rest"
      and "list_all (\<lambda>(k, v). settled env t v) rest'" by blast+
    ultimately show "length items' = length ((k, v) # rest) \<and>
        list_all (\<lambda>(k, v). settled env t v) items'"
      using items' by simp
  qed
next
  case (15 env t accepts v vs)
  show ?case
  proof (intro allI impI)
    fix xs' assume st: "stable env t accepts"
      and run: "traverse_elems env t accepts (v # vs) = Inr xs'"
    from run obtain v' vs' where v': "traverse_entry env t accepts v = Inr v'"
      and vs': "traverse_elems env t accepts vs = Inr vs'" and xs': "xs' = v' # vs'"
      by (auto split: sum.splits)
    from "15.IH"(1) st v' have "settled env t v' \<and> accepts v'" by blast
    moreover from "15.IH"(2) [OF v'] st vs' have "length vs' = length vs"
      and "list_all (\<lambda>v. settled env t v \<and> accepts v) vs'" by blast+
    ultimately show "length xs' = length (v # vs) \<and>
        list_all (\<lambda>v. settled env t v \<and> accepts v) xs'"
      using xs' by simp
  qed
qed (auto simp: fits_def)




text \<open>Every text of a value, at every level of nesting, is within the text limit.\<close>

fun text_capped :: "ShortenerTransform \<Rightarrow> pyval \<Rightarrow> bool" where
  "text_capped t (PStr s) = (length s \<le> maxstring (repr_obj t))"
| "text_capped t (PDict items) = list_all (\<lambda>(k, v). text_capped t v) items"
| "text_capped t (PList xs) = list_all (text_capped t) xs"
| "text_capped t (PTuple xs) = list_all (text_capped t) xs"
| "text_capped t (PSet xs) = list_all (text_capped t) xs"
| "text_capped t (PFrozenset xs) = list_all (text_capped t) xs"
| "text_capped t (PArray tc xs) = list_all (text_capped t) xs"
| "text_capped t (PDeque xs) = list_all (text_capped t) xs"
| "text_capped t (PMapping ob items) = list_all (\<lambda>(k, v). text_capped t v) items"
| "text_capped t v = True"

lemma settled_shorten_mapping:
  "settled env t v \<Longrightarrow> is_dict v \<Longrightarrow> shorten_mapping t v (get_max_size t v) = Inr v"
  by (cases v) (auto simp: shorten_mapping_def)

lemma settled_shorten_sequence:
  "settled env t v \<Longrightarrow> is_sequence env v \<Longrightarrow> shorten_sequence env t v (get_max_size t v) = Inr v"
  by (cases v) (auto simp: shorten_sequence_def)

lemma capped_shorten_sequence:
  "text_capped t v \<Longrightarrow> is_string v \<Longrightarrow> shorten_sequence env t v (get_max_size t v) = Inr v"
  by (cases v) (auto simp: shorten_sequence_def)

lemma settled_number:
  "settled env t v \<Longrightarrow> is_number v \<Longrightarrow> shorten_basic env t v (maxlong (repr_obj t)) = Inr v"
  by (cases v) (auto simp: shorten_basic_def)

lemma settled_leaf:
  "settled env t v \<Longrightarrow> \<not> is_dict v \<Longrightarrow> \<not> is_string v \<Longrightarrow> \<not> is_sequence env v \<Longrightarrow>
   \<not> is_number v \<Longrightarrow> v = PNone"
  by (cases v) auto

lemma shorten_fixed:
  "settled env t v \<longrightarrow> text_capped t v \<longrightarrow> shorten env t v = Inr v"
  "settled env t d \<longrightarrow> text_capped t d \<longrightarrow> traverse_obj env t d = Inr d"
  "settled env t v \<longrightarrow> text_capped t v \<longrightarrow> accepts v \<longrightarrow> traverse_entry env t accepts v = Inr v"
  "list_all (\<lambda>(k, v). settled env t v \<and> text_capped t v) items \<longrightarrow>
     traverse_items env t items = Inr items"
  "list_all (\<lambda>v. settled env t v \<and> text_capped t v \<and> accepts v) xs \<longrightarrow>
     traverse_elems env t accepts xs = Inr xs"
proof (induction env t v and env t d and env t accepts v and env t items and env t accepts xs
    rule: shorten_traverse_obj_traverse_entry_traverse_items_traverse_elems.induct)
  case (1 env t val)
  show ?case
  proof (intro impI)
    assume st: "settled env t val" and cap: "text_capped t val"
    consider (dict) "is_dict val" | (strg) "\<not> is_dict val" "is_string val"
      | (seq) "\<not> is_dict val" "\<not> is_string val" "is_sequence env val"
      | (num) "\<not> is_dict val" "\<not> is_string val" "\<not> is_sequence env val" "is_number val"
      | (other) "\<not> is_dict val" "\<not> is_string val" "\<not> is_sequence env val" "\<not> is_number val"
      by blast
    then show "shorten env t val = Inr val"
    proof cases
      case dict
      note same = settled_shorten_mapping [OF st dict]
      from "1.IH"(1) [OF refl dict same] st cap have "traverse_obj env t val = Inr val" by blast
      then show ?thesis using dict same by (simp add: shorten.simps)
    next
      case strg
      then show ?thesis using capped_shorten_sequence [OF cap strg(2)] by (simp add: shorten.simps)
    next
      case seq
      note same = settled_shorten_sequence [OF st seq(3)]
      from "1.IH"(2) [OF refl seq same] st cap have "traverse_obj env t val = Inr val" by blast
      then show ?thesis using seq same by (simp add: shorten.simps)
    next
      case num
      then show ?thesis using settled_number [OF st num(4)] by (simp add: shorten.simps)
    next
      case other
      from settled_leaf [OF st other] other show ?thesis
        by (simp add: shorten.simps shorten_other_def)
    qed
  qed
next
  case (11 env t accepts v)
  show ?case
  proof (intro impI)
    assume st: "settled env t v" and cap: "text_capped t v" and acc: "accepts v"
    consider (dict) "is_dict v" | (seq) "\<not> is_dict v" "is_sequence env v"
      | (leaf) "\<not> is_dict v" "\<not> is_sequence env v"
      by blast
    then show "traverse_entry env t accepts v = Inr v"
    proof cases
      case dict
      note same = settled_shorten_mapping [OF st dict]
      from "11.IH"(1) [OF dict same acc] st cap have "traverse_obj env t v = Inr v" by blast
      then show ?thesis using dict same acc by (simp add: traverse_entry.simps)
    next
      case seq
      note same = settled_shorten_sequence [OF st seq(2)]
      from "11.IH"(2) [OF seq same acc] st cap have "traverse_obj env t v = Inr v" by blast
      then show ?thesis using seq same acc by (simp add: traverse_entry.simps)
    next
      case leaf
      from "11.IH"(3) [OF leaf] st cap have "shorten env t v = Inr v" by blast
      then show ?thesis using leaf acc by (simp add: traverse_entry.simps)
    qed
  qed
next
  case (13 env t k v rest)
  show ?case
  proof (intro impI)
    assume all: "list_all (\<lambda>(k, v). settled env t v \<and> text_capped t v) ((k, v) # rest)"
    with "13.IH"(1) have v: "traverse_entry env t (\<lambda>v. True) v = Inr v" by simp
    from "13.IH"(2) [OF v] all have "traverse_items env t rest = Inr rest" by simp
    with v show "traverse_items env t ((k, v) # rest) = Inr ((k, v) # rest)" by simp
  qed
next
  case (15 env t accepts v vs)
  show ?case
  proof (intro impI)
    assume all: "list_all (\<lambda>v. settled env t v \<and> text_capped t v \<and> accepts v) (v # vs)"
    with "15.IH"(1) have v: "traverse_entry env t accepts v = Inr v" by simp
    from "15.IH"(2) [OF v] all have "traverse_elems env t accepts vs = Inr vs" by simp
    with v show "traverse_elems env t accepts (v # vs) = Inr (v # vs)" by simp
  qed
qed (auto simp: list_all_iff)


section \<open>How long a summary is\<close>

lemma slice_from_length: "0 \<le> j \<Longrightarrow> length (slice_from (int (length xs) - j) xs) \<le> nat j"
  by (auto simp: slice_from_def)

lemma cut_sum: "nat (cut_i m) + 3 + nat (cut_j m) \<le> max 3 m"
  by (auto simp: cut_i_def cut_j_def)

lemma cut_j_nonneg: "0 \<le> cut_j m"
  by (simp add: cut_j_def)

lemma cut_length:
  "length (take (nat (cut_i m)) s @ fillvalue @ slice_from (int (length s) - cut_j m) s) \<le> max 3 m"
proof -
  have "length (take (nat (cut_i m)) s) \<le> nat (cut_i m)" by simp
  moreover have "length fillvalue = 3" by (simp add: fillvalue_def)
  moreover note slice_from_length [OF cut_j_nonneg, of s m]
  ultimately have "length (take (nat (cut_i m)) s @ fillvalue @ slice_from (int (length s) - cut_j m) s)
      \<le> nat (cut_i m) + 3 + nat (cut_j m)"
    by simp
  with cut_sum [of m] show ?thesis by linarith
qed


lemma repr_str_length: "length (repr_str r s) \<le> max 3 (maxstring r)"
  using cut_length by (auto simp: repr_str_def Let_def)



section \<open>A bound on every summary\<close>

































section \<open>The text of the result\<close>



















section \<open>Limits of the result\<close>

text \<open>A payload of the kind the transform is run on, and what \<^verbatim>\<open>_shorten\<close> makes of it
  under the limits of \<^verbatim>\<open>reprlib.Repr()\<close>: the text of 40 characters is cut to 30, the
  dict of five keys keeps four, the object is replaced by the \<^verbatim>\<open>repr\<close> of its text.\<close>

definition sample :: pyval where
  "sample = PDict [(PStr ''note'', PStr ''xxxxxxxxxxxxxxxxxxxxxxxxxxxxxxxxxxxxxxxx''),
     (PStr ''ids'', PList [PInt 1, PInt 2, PInt 3]),
     (PStr ''env'', PDict [(PStr ''a'', PNone), (PStr ''b'', PBool True), (PStr ''c'', PInt 3),
        (PStr ''d'', PInt 4), (PStr ''e'', PInt 5)]),
     (PStr ''who'', PObject (PyObj ''User'' (Some ''ann'') (Some ''<User ann>'') 7))]"

definition sample_shortened :: pyval where
  "sample_shortened = PDict [(PStr ''note'', PStr (squote # ''xxxxxxxxxxxx...xxxxxxxxxxxxx'' @ [squote])),
     (PStr ''ids'', PList [PInt 1, PInt 2, PInt 3]),
     (PStr ''env'', PDict [(PStr ''a'', PNone), (PStr ''b'', PBool True), (PStr ''c'', PInt 3),
        (PStr ''d'', PInt 4)]),
     (PStr ''who'', PStr (squote # ''ann'' @ [squote]))]"

lemma shorten_sample: "shorten env_listed plain sample = Inr sample_shortened"
  by (simp add: sample_def sample_shortened_def strategy_rules plain_def Repr_init_def text_rules
      repr_rules)




section \<open>A second pass\<close>

lemma Repr_repr_str: "Repr_repr env r (PStr s) = repr_str r s"
  by (cases "maxlevel r") (simp_all add: Repr_repr_def repr_dispatch_def)

lemma shorten_text:
  "shorten env t (PStr s) =
     Inr (PStr (if length s \<le> maxstring (repr_obj t) then s else repr_str (repr_obj t) s))"
  by (simp add: shorten.simps shorten_sequence_def Repr_repr_str)

text \<open>C3, as the code has it. A second pass returns the result of the first unchanged whenever
  no text in that result is over the text limit: the containers of the result are within
  their limits and are returned as they are. A text over the limit, such as the summary of a
  list, is cut again by the second pass, to at most \<open>max 3 maxstring\<close> characters; it does not
  grow when the text limit is 3 or more.\<close>

theorem shorten_twice:
  "(shorten env t v = Inr v' \<and> text_capped t v' \<longrightarrow> shorten env t v' = Inr v') \<and>
   (\<exists>s'. shorten env t (PStr s) = Inr (PStr s') \<and>
      length s' \<le> max 3 (maxstring (repr_obj t)) \<and>
      (length s \<le> maxstring (repr_obj t) \<longrightarrow> s' = s) \<and>
      (3 \<le> maxstring (repr_obj t) \<longrightarrow> length s' \<le> length s))"
proof
  show "shorten env t v = Inr v' \<and> text_capped t v' \<longrightarrow> shorten env t v' = Inr v'"
    using shorten_shape(1) [of env t v] shorten_fixed(1) [of env t v'] by blast
next
  let ?s' = "if length s \<le> maxstring (repr_obj t) then s else repr_str (repr_obj t) s"
  have "length ?s' \<le> max 3 (maxstring (repr_obj t))"
    using repr_str_length [of "repr_obj t" s] by auto
  moreover have "3 \<le> maxstring (repr_obj t) \<longrightarrow> length ?s' \<le> length s"
    using repr_str_length [of "repr_obj t" s] by auto
  ultimately show "\<exists>s'. shorten env t (PStr s) = Inr (PStr s') \<and>
      length s' \<le> max 3 (maxstring (repr_obj t)) \<and>
      (length s \<le> maxstring (repr_obj t) \<longrightarrow> s' = s) \<and>
      (3 \<le> maxstring (repr_obj t) \<longrightarrow> length s' \<le> length s)"
    using shorten_text [of env t s] by auto
qed

lemma text_capped_sample: "text_capped plain sample_shortened"
  by (simp add: sample_shortened_def plain_def Repr_init_def)

theorem shorten_twice_witness:
  "shorten env_listed plain sample = Inr sample_shortened \<and> text_capped plain sample_shortened \<and>
   shorten env_listed plain sample_shortened = Inr sample_shortened \<and>
   shorten env_listed plain (PStr ''abc'') = Inr (PStr ''abc'')"
  using shorten_twice [of env_listed plain sample sample_shortened "''abc''"]
    shorten_sample text_capped_sample
  by (simp add: plain_def Repr_init_def)

text \<open>C3 as the claim states it fails. The first pass replaces the list of seven integers by
  its summary of 59 characters; the second pass takes the summary for text over the limit
  of 30 and replaces it by the summary of the summary.\<close>

theorem second_pass_counterexample:
  "shorten env_listed plain
     (PList [PInt 1000000, PInt 1000000, PInt 1000000, PInt 1000000, PInt 1000000, PInt 1000000,
             PInt 1000000]) =
     Inr (PStr ''[1000000, 1000000, 1000000, 1000000, 1000000, 1000000, ...]'') \<and>
   shorten env_listed plain
     (PStr ''[1000000, 1000000, 1000000, 1000000, 1000000, 1000000, ...]'') =
     Inr (PStr (squote # ''[1000000, 10...1000000, ...]'' @ [squote]))"
  by (simp add: strategy_rules plain_def Repr_init_def text_rules repr_rules)


section \<open>The sequence strategy\<close>








lemma cut_i_nonneg: "0 \<le> cut_i m"
  by (simp add: cut_i_def)














end
